theory Spec2Isabelle
  imports Complex_Main "HOL-Library.Log_Nat"
begin

section \<open>GFF statistics: a model of gff\_stats.py\<close>

text \<open>
  The program reads a GFF annotation file line by line, turns every data line into a
  feature record and computes four statistics over the retained records.

  Conventions of the model:
  \<^item> a Python \<open>str\<close> is a \<open>string\<close>; a character of the model is a code point below 256;
  \<^item> a Python \<open>int\<close> is an \<open>int\<close>;
  \<^item> a Python \<open>float\<close> is the rational number that the IEEE double denotes (the sign of
    zero is not represented);
  \<^item> a \<open>dict\<close> is an association list in insertion order with distinct keys;
  \<^item> an exception is a value \<open>Inl e\<close> of a sum type, \<open>None\<close> is the \<open>None\<close> of Python;
  \<^item> the opened file is the list of the lines that iterating over it yields.
\<close>

subsection \<open>Exceptions\<close>

datatype py_error = ValueError | OverflowError | ZeroDivisionError

subsection \<open>Built-in string operations\<close>

abbreviation TAB :: char where
  "TAB \<equiv> CHR 0x09"

text \<open>The characters below 256 for which \<open>str.isspace\<close> holds; \<open>str.strip\<close> removes them.\<close>

definition py_isspace :: "char \<Rightarrow> bool" where
  "py_isspace c \<longleftrightarrow>
     c \<in> set [CHR 0x09, CHR 0x0A, CHR 0x0B, CHR 0x0C, CHR 0x0D,
                CHR 0x1C, CHR 0x1D, CHR 0x1E, CHR 0x1F, CHR 0x20, CHR 0x85, CHR 0xA0]"

definition py_strip :: "string \<Rightarrow> string" where
  "py_strip s = rev (dropWhile py_isspace (rev (dropWhile py_isspace s)))"

definition py_startswith :: "string \<Rightarrow> string \<Rightarrow> bool" where
  "py_startswith s p \<longleftrightarrow> take (length p) s = p"

text \<open>\<open>s.split(sep)\<close> for a separator of one character: every occurrence separates.\<close>

fun py_split :: "char \<Rightarrow> string \<Rightarrow> string list" where
  "py_split sep [] = [[]]"
| "py_split sep (c # cs) =
     (if c = sep then [] # py_split sep cs
      else (case py_split sep cs of
              [] \<Rightarrow> [[c]]
            | field # fields \<Rightarrow> (c # field) # fields))"

subsection \<open>The built-in \<open>int\<close> on a string\<close>

text \<open>
  \<open>int(s)\<close> in base 10: optional white space, an optional sign, decimal digits with single
  underscores between them, optional white space. The white space of \<open>int\<close> is narrower
  than that of \<open>strip\<close>: the separators 0x1C to 0x1F are refused.
  The first argument is the interpreter's limit on the number of digits
  (\<open>sys.get_int_max_str_digits()\<close>, 0 for no limit, 4300 by default since Python 3.11);
  it applies to strings of more than 640 digits.
\<close>

definition int_isspace :: "char \<Rightarrow> bool" where
  "int_isspace c \<longleftrightarrow>
     c \<in> set [CHR 0x09, CHR 0x0A, CHR 0x0B, CHR 0x0C, CHR 0x0D, CHR 0x20, CHR 0x85, CHR 0xA0]"

definition digit_val :: "char \<Rightarrow> nat option" where
  "digit_val c =
     (let code = (of_char c :: nat)
      in if 48 \<le> code \<and> code \<le> 57 then Some (code - 48) else None)"

text \<open>
  The scan over digits and underscores: \<open>prev\<close> is the character read last, \<open>v\<close> the value
  and \<open>n\<close> the number of digits so far. The result is the value, the number of digits and
  the rest of the string; \<open>None\<close> for two underscores in a row or an underscore at the end.
\<close>

fun scan_digits :: "string \<Rightarrow> char \<Rightarrow> nat \<Rightarrow> nat \<Rightarrow> (nat \<times> nat \<times> string) option" where
  "scan_digits [] prev v n = (if prev = CHR ''_'' then None else Some (v, n, []))"
| "scan_digits (c # cs) prev v n =
     (if c = CHR ''_'' then (if prev = CHR ''_'' then None else scan_digits cs c v n)
      else (case digit_val c of
              Some d \<Rightarrow> scan_digits cs c (10 * v + d) (n + 1)
            | None \<Rightarrow> (if prev = CHR ''_'' then None else Some (v, n, c # cs))))"

definition py_int :: "nat \<Rightarrow> string \<Rightarrow> int option" where
  "py_int max_str_digits s =
     (let s1 = dropWhile int_isspace s;
          sign = (case s1 of c # _ \<Rightarrow> if c = CHR ''-'' then - 1 else 1 | [] \<Rightarrow> (1 :: int));
          s2 = (case s1 of
                  c # cs \<Rightarrow> if c = CHR ''+'' \<or> c = CHR ''-'' then cs else s1
                | [] \<Rightarrow> s1)
      in case s2 of
           [] \<Rightarrow> None
         | c # _ \<Rightarrow>
             if c = CHR ''_'' then None
             else (case scan_digits s2 (CHR 0x00) 0 0 of
                     None \<Rightarrow> None
                   | Some (v, n, rest) \<Rightarrow>
                       if n = 0 then None
                       else if 640 < n \<and> 0 < max_str_digits \<and> max_str_digits < n then None
                       else if dropWhile int_isspace rest = [] then Some (sign * int v)
                       else None))"

subsection \<open>Floating point: true division and \<open>round\<close>\<close>

text \<open>
  A double is modelled by its exact value. \<open>nearest_double a b\<close> is the double nearest to
  \<open>a / b\<close> for \<open>b > 0\<close>, ties to the even significand, with 53 bits of significand and
  the least exponent of the subnormal numbers; \<open>None\<close> when the rounded value does not
  fit (its magnitude reaches \<open>2 ^ 1024\<close>).
\<close>

definition pow2 :: "int \<Rightarrow> rat" where
  "pow2 e = (if 0 \<le> e then 2 ^ nat e else 1 / 2 ^ nat (- e))"

text \<open>\<open>ilog2 a b\<close> is the integer part of the binary logarithm of \<open>a / b\<close>, for positive \<open>a\<close>, \<open>b\<close>.\<close>

definition ilog2 :: "int \<Rightarrow> int \<Rightarrow> int" where
  "ilog2 a b =
     (let k = bitlen a - bitlen b
      in if pow2 k * of_int b \<le> of_int a then k else k - 1)"

definition round_half_even :: "rat \<Rightarrow> int" where
  "round_half_even x =
     (let f = \<lfloor>x\<rfloor>; d = x - of_int f
      in if d < 1 / 2 then f else if 1 / 2 < d then f + 1
         else if even f then f else f + 1)"

definition nearest_double :: "int \<Rightarrow> int \<Rightarrow> rat option" where
  "nearest_double a b =
     (if a = 0 then Some 0
      else let e = max (ilog2 \<bar>a\<bar> b - 52) (- 1074);
               d = of_int (round_half_even (of_int a / (of_int b * pow2 e))) * pow2 e
           in if 2 ^ 1024 \<le> \<bar>d\<bar> then None else Some d)"

text \<open>\<open>a / b\<close> on two \<open>int\<close>s: the correctly rounded quotient, or an exception.\<close>

definition py_truediv :: "int \<Rightarrow> int \<Rightarrow> py_error + rat" where
  "py_truediv a b =
     (if b = 0 then Inl ZeroDivisionError
      else (case nearest_double (if b < 0 then - a else a) \<bar>b\<bar> of
              None \<Rightarrow> Inl OverflowError
            | Some d \<Rightarrow> Inr d))"

text \<open>
  \<open>round(x, 1)\<close> on a float: the exact value of \<open>x\<close> is rounded to one decimal, ties to
  the even digit, and the decimal is converted back to the nearest double.
\<close>

definition py_round1 :: "rat \<Rightarrow> py_error + rat" where
  "py_round1 x =
     (case nearest_double (round_half_even (x * 10)) 10 of
        None \<Rightarrow> Inl OverflowError
      | Some d \<Rightarrow> Inr d)"

subsection \<open>Dictionaries\<close>

text \<open>\<open>d[k] += 1\<close> on a \<open>defaultdict(int)\<close>.\<close>

fun dict_incr :: "'k \<Rightarrow> ('k \<times> int) list \<Rightarrow> ('k \<times> int) list" where
  "dict_incr k [] = [(k, 1)]"
| "dict_incr k ((k', n) # d) =
     (if k' = k then (k', n + 1) # d else (k', n) # dict_incr k d)"

text \<open>\<open>d[k].append(v)\<close> on a \<open>defaultdict(list)\<close>.\<close>

fun dict_append :: "'k \<Rightarrow> 'v \<Rightarrow> ('k \<times> 'v list) list \<Rightarrow> ('k \<times> 'v list) list" where
  "dict_append k v [] = [(k, [v])]"
| "dict_append k v ((k', vs) # d) =
     (if k' = k then (k', vs @ [v]) # d else (k', vs) # dict_append k v d)"

text \<open>\<open>d[k] = v\<close> on a \<open>dict\<close>.\<close>

fun dict_set :: "'k \<Rightarrow> 'v \<Rightarrow> ('k \<times> 'v) list \<Rightarrow> ('k \<times> 'v) list" where
  "dict_set k v [] = [(k, v)]"
| "dict_set k v ((k', v') # d) =
     (if k' = k then (k', v) # d else (k', v') # dict_set k v d)"

subsection \<open>The line parser\<close>

record gff_feature =
  seqname :: string
  source :: string
  feature :: string
  start :: int
  end_pos :: int
  score :: string
  strand :: string
  frame :: string
  attributes :: string

definition parse_gff_line :: "nat \<Rightarrow> string \<Rightarrow> py_error + gff_feature option" where
  "parse_gff_line max_str_digits line0 =
     (let line = py_strip line0
      in if line = [] \<or> py_startswith line ''#'' then Inr None
         else let fields = py_split TAB line
              in if length fields < 8 then Inr None
                 else (case py_int max_str_digits (fields ! 3) of
                         None \<Rightarrow> Inl ValueError
                       | Some s \<Rightarrow>
                           (case py_int max_str_digits (fields ! 4) of
                              None \<Rightarrow> Inl ValueError
                            | Some e \<Rightarrow>
                                Inr (Some \<lparr>seqname = fields ! 0, source = fields ! 1,
                                           feature = fields ! 2, start = s, end_pos = e,
                                           score = fields ! 5, strand = fields ! 6,
                                           frame = fields ! 7,
                                           attributes =
                                             (if 8 < length fields then fields ! 8 else [])\<rparr>))))"

definition calculate_length :: "gff_feature \<Rightarrow> int" where
  "calculate_length f = end_pos f - start f + 1"

subsection \<open>The aggregator\<close>

record gff_stats =
  total_features :: int
  by_type :: "(string \<times> int) list"
  avg_length :: "(string \<times> rat) list"
  strand_distribution :: "(string \<times> int) list"

text \<open>The first loop of \<open>process_gff\<close>: parse every line and keep the records that pass the filter.\<close>

fun read_features ::
  "nat \<Rightarrow> string list \<Rightarrow> string option \<Rightarrow> gff_feature list \<Rightarrow> py_error + gff_feature list" where
  "read_features max_str_digits [] filter_type features = Inr features"
| "read_features max_str_digits (line # rest) filter_type features =
     (case parse_gff_line max_str_digits line of
        Inl e \<Rightarrow> Inl e
      | Inr None \<Rightarrow> read_features max_str_digits rest filter_type features
      | Inr (Some parsed) \<Rightarrow>
          if filter_type = None \<or> Some (feature parsed) = filter_type
          then read_features max_str_digits rest filter_type (features @ [parsed])
          else read_features max_str_digits rest filter_type features)"

text \<open>The expression \<open>round(sum(lengths) / len(lengths), 1)\<close>.\<close>

definition rounded_mean :: "int list \<Rightarrow> py_error + rat" where
  "rounded_mean lengths =
     (case py_truediv (sum_list lengths) (int (length lengths)) of
        Inl e \<Rightarrow> Inl e
      | Inr q \<Rightarrow> py_round1 q)"

text \<open>The loop over \<open>lengths_by_type.items()\<close> that fills \<open>avg_length\<close>.\<close>

fun average_lengths ::
  "(string \<times> int list) list \<Rightarrow> (string \<times> rat) list \<Rightarrow> py_error + (string \<times> rat) list" where
  "average_lengths [] avg = Inr avg"
| "average_lengths ((feature_type, lengths) # rest) avg =
     (case rounded_mean lengths of
        Inl e \<Rightarrow> Inl e
      | Inr r \<Rightarrow> average_lengths rest (dict_set feature_type r avg))"

definition process_gff :: "nat \<Rightarrow> string list \<Rightarrow> string option \<Rightarrow> py_error + gff_stats" where
  "process_gff max_str_digits gff_file filter_type =
     (case read_features max_str_digits gff_file filter_type [] of
        Inl e \<Rightarrow> Inl e
      | Inr features \<Rightarrow>
          (let lengths_by_type =
                 fold (\<lambda>f d. dict_append (feature f) (calculate_length f) d) features []
           in case average_lengths lengths_by_type [] of
                Inl e \<Rightarrow> Inl e
              | Inr avg \<Rightarrow>
                  Inr \<lparr>total_features = int (length features),
                       by_type = fold (\<lambda>f d. dict_incr (feature f) d) features [],
                       avg_length = avg,
                       strand_distribution = fold (\<lambda>f d. dict_incr (strand f) d) features []\<rparr>))"

subsection \<open>The average in the words of the specification\<close>

text \<open>Following the spec's words (section 4.2): the arithmetic mean of the lengths, rounded to
  exactly one decimal place with round-half-to-even.\<close>

definition spec_avg_length :: "int list \<Rightarrow> rat" where
  "spec_avg_length lengths =
     of_int (round_half_even (of_int (sum_list lengths) / of_int (int (length lengths)) * 10)) / 10"

subsection \<open>Input lines for the examples\<close>

text \<open>\<open>sep.join(fields)\<close>; a line of a GFF file is its fields joined by tabs.\<close>

fun py_join :: "string \<Rightarrow> string list \<Rightarrow> string" where
  "py_join sep [] = []"
| "py_join sep [x] = x"
| "py_join sep (x # y # ys) = x @ sep @ py_join sep (y # ys)"

definition valid_feature_line :: string where
  "valid_feature_line =
     py_join [TAB] [''NC_000908.2'', ''RefSeq'', ''gene'', ''1'', ''107'', ''.'', ''+'', ''.'',
                    ''ID=gene-MG_0001'']"

definition commented_feature_line :: string where
  "commented_feature_line =
     py_join [TAB] [''#chr1'', ''src'', ''gene'', ''1'', ''10'', ''.'', ''+'', ''.'']"

definition header_comment_line :: string where
  "header_comment_line =
     py_join [TAB] [''#seqname'', ''source'', ''feature'', ''start'', ''end'', ''score'',
                    ''strand'', ''frame'']"

definition bad_start_line :: string where
  "bad_start_line =
     py_join [TAB] [''chr1'', ''src'', ''gene'', ''abc'', ''10'', ''.'', ''+'', ''.'']"

text \<open>The file of three features, on two strands and of two types.\<close>

definition multi_strand_file :: "string list" where
  "multi_strand_file =
     [py_join [TAB] [''NC_000001'', ''test'', ''gene'', ''100'', ''200'', ''.'', ''+'', ''.'',
                     ''ID=test1''] @ [CHR 0x0A],
      py_join [TAB] [''NC_000001'', ''test'', ''gene'', ''300'', ''400'', ''.'', ''-'', ''.'',
                     ''ID=test2''] @ [CHR 0x0A],
      py_join [TAB] [''NC_000001'', ''test'', ''CDS'', ''100'', ''150'', ''.'', ''+'', ''0'',
                     ''ID=test3''] @ [CHR 0x0A]]"

definition multi_strand_features :: "gff_feature list" where
  "multi_strand_features =
     [\<lparr>seqname = ''NC_000001'', source = ''test'', feature = ''gene'', start = 100,
        end_pos = 200, score = ''.'', strand = ''+'', frame = ''.'', attributes = ''ID=test1''\<rparr>,
      \<lparr>seqname = ''NC_000001'', source = ''test'', feature = ''gene'', start = 300,
        end_pos = 400, score = ''.'', strand = ''-'', frame = ''.'', attributes = ''ID=test2''\<rparr>,
      \<lparr>seqname = ''NC_000001'', source = ''test'', feature = ''CDS'', start = 100,
        end_pos = 150, score = ''.'', strand = ''+'', frame = ''0'', attributes = ''ID=test3''\<rparr>]"

definition multi_strand_stats :: gff_stats where
  "multi_strand_stats =
     \<lparr>total_features = 3, by_type = [(''gene'', 2), (''CDS'', 1)],
      avg_length = [(''gene'', 101), (''CDS'', 51)],
      strand_distribution = [(''+'', 2), (''-'', 1)]\<rparr>"

text \<open>Three genes of lengths 10, 10 and 5.\<close>

definition precision_file :: "string list" where
  "precision_file =
     [py_join [TAB] [''NC_000001'', ''test'', ''gene'', ''1'', ''10'', ''.'', ''+'', ''.'',
                     ''ID=g1''] @ [CHR 0x0A],
      py_join [TAB] [''NC_000001'', ''test'', ''gene'', ''20'', ''29'', ''.'', ''+'', ''.'',
                     ''ID=g2''] @ [CHR 0x0A],
      py_join [TAB] [''NC_000001'', ''test'', ''gene'', ''40'', ''44'', ''.'', ''+'', ''.'',
                     ''ID=g3''] @ [CHR 0x0A]]"

definition precision_features :: "gff_feature list" where
  "precision_features =
     [\<lparr>seqname = ''NC_000001'', source = ''test'', feature = ''gene'', start = 1,
        end_pos = 10, score = ''.'', strand = ''+'', frame = ''.'', attributes = ''ID=g1''\<rparr>,
      \<lparr>seqname = ''NC_000001'', source = ''test'', feature = ''gene'', start = 20,
        end_pos = 29, score = ''.'', strand = ''+'', frame = ''.'', attributes = ''ID=g2''\<rparr>,
      \<lparr>seqname = ''NC_000001'', source = ''test'', feature = ''gene'', start = 40,
        end_pos = 44, score = ''.'', strand = ''+'', frame = ''.'', attributes = ''ID=g3''\<rparr>]"

definition precision_stats :: gff_stats where
  "precision_stats =
     \<lparr>total_features = 3, by_type = [(''gene'', 3)],
      avg_length = [(''gene'', 2336242306698445 / 281474976710656)],
      strand_distribution = [(''+'', 3)]\<rparr>"

text \<open>Twenty genes, seventeen of length 1 and three of length 2: the mean is 1.15.\<close>

definition one_base_line :: string where
  "one_base_line = py_join [TAB] [''chr1'', ''src'', ''gene'', ''5'', ''5'', ''.'', ''+'', ''.'']"

definition two_base_line :: string where
  "two_base_line = py_join [TAB] [''chr1'', ''src'', ''gene'', ''5'', ''6'', ''.'', ''+'', ''.'']"

definition one_base_feature :: gff_feature where
  "one_base_feature =
     \<lparr>seqname = ''chr1'', source = ''src'', feature = ''gene'', start = 5,
        end_pos = 5, score = ''.'', strand = ''+'', frame = ''.'', attributes = []\<rparr>"

definition two_base_feature :: gff_feature where
  "two_base_feature =
     \<lparr>seqname = ''chr1'', source = ''src'', feature = ''gene'', start = 5,
        end_pos = 6, score = ''.'', strand = ''+'', frame = ''.'', attributes = []\<rparr>"

definition tie_file :: "string list" where
  "tie_file =
     [one_base_line, one_base_line, one_base_line, one_base_line, one_base_line,
      one_base_line, one_base_line, one_base_line, one_base_line, one_base_line,
      one_base_line, one_base_line, one_base_line, one_base_line, one_base_line,
      one_base_line, one_base_line, two_base_line, two_base_line, two_base_line]"

definition tie_features :: "gff_feature list" where
  "tie_features =
     [one_base_feature, one_base_feature, one_base_feature, one_base_feature,
      one_base_feature, one_base_feature, one_base_feature, one_base_feature,
      one_base_feature, one_base_feature, one_base_feature, one_base_feature,
      one_base_feature, one_base_feature, one_base_feature, one_base_feature,
      one_base_feature, two_base_feature, two_base_feature, two_base_feature]"

definition tie_stats :: gff_stats where
  "tie_stats =
     \<lparr>total_features = 20, by_type = [(''gene'', 20)],
      avg_length = [(''gene'', 2476979795053773 / 2251799813685248)],
      strand_distribution = [(''+'', 20)]\<rparr>"



section \<open>Properties of the line parser\<close>

lemmas parse_eval = parse_gff_line_def py_strip_def py_isspace_def py_startswith_def
  py_int_def int_isspace_def digit_val_def Let_def

text \<open>
  Claim C4. A line that is empty after trimming, or whose trimmed content begins with
  \<open>#\<close>, or whose trimmed content has fewer than 8 tab-separated fields, is skipped:
  the parser returns \<open>None\<close>, no record and no exception.
\<close>

theorem parse_gff_line_skip:
  assumes "py_strip line = [] \<or> py_startswith (py_strip line) ''#''
           \<or> length (py_split TAB (py_strip line)) < 8"
  shows "parse_gff_line m line = Inr None"
  using assms by (auto simp: parse_gff_line_def Let_def)

theorem parse_gff_line_skip_witness:
  "length (py_split TAB (py_strip (py_join [TAB] [''NC_000908.2'', ''RefSeq'', ''gene'']))) < 8
   \<and> parse_gff_line 0 (py_join [TAB] [''NC_000908.2'', ''RefSeq'', ''gene'']) = Inr None"
  using parse_gff_line_skip [of "py_join [TAB] [''NC_000908.2'', ''RefSeq'', ''gene'']" 0]
  by (simp add: py_strip_def py_isspace_def)

text \<open>
  Claim C10. The start and end fields go through \<open>int\<close>, which accepts more than plain
  digit strings: a sign, surrounding spaces and underscores between digits. The lines
  below parse, and the first yields a record with negative coordinates.
\<close>

theorem parse_gff_line_int_syntax:
  "parse_gff_line m
     (py_join [TAB] [''chr1'', ''src'', ''gene'', ''-5'', ''-2'', ''.'', ''+'', ''.''])
     = Inr (Some \<lparr>seqname = ''chr1'', source = ''src'', feature = ''gene'', start = - 5,
                  end_pos = - 2, score = ''.'', strand = ''+'', frame = ''.'',
                  attributes = []\<rparr>)
   \<and> parse_gff_line m
     (py_join [TAB] [''chr1'', ''src'', ''gene'', '' 7 '', ''1_000'', ''.'', ''+'', ''.''])
     = Inr (Some \<lparr>seqname = ''chr1'', source = ''src'', feature = ''gene'', start = 7,
                  end_pos = 1000, score = ''.'', strand = ''+'', frame = ''.'',
                  attributes = []\<rparr>)
   \<and> parse_gff_line m
     (py_join [TAB] [''chr1'', ''src'', ''gene'', ''+3'', ''1_0'', ''.'', ''+'', ''.''])
     = Inr (Some \<lparr>seqname = ''chr1'', source = ''src'', feature = ''gene'', start = 3,
                  end_pos = 10, score = ''.'', strand = ''+'', frame = ''.'',
                  attributes = []\<rparr>)"
  by (simp add: parse_eval)

text \<open>Every exception of the parser is the \<open>ValueError\<close> of \<open>int\<close>, and the reading loop passes it on.\<close>

lemma parse_gff_line_error: "parse_gff_line m line = Inl e \<Longrightarrow> e = ValueError"
  by (auto simp: parse_gff_line_def Let_def split: if_splits option.splits)

lemma read_features_error:
  "l \<in> set lines \<Longrightarrow> parse_gff_line m l = Inl ValueError
   \<Longrightarrow> read_features m lines flt acc = Inl ValueError"
proof (induction lines arbitrary: acc)
  case Nil
  then show ?case by simp
next
  case (Cons x xs)
  show ?case
  proof (cases "parse_gff_line m x")
    case (Inl e)
    then show ?thesis using parse_gff_line_error [OF Inl] by simp
  next
    case (Inr r)
    with Cons have "l \<in> set xs" by auto
    with Cons Inr show ?thesis by (auto split: option.splits)
  qed
qed

text \<open>
  Claim C2, as stated, fails on a commented-out feature line: its trimmed content has 8
  tab-separated fields with integer fields 3 and 4, and the parser skips it.
\<close>

theorem parse_gff_line_roundtrip_counterexample:
  "8 \<le> length (py_split TAB (py_strip commented_feature_line))
   \<and> py_int 4300 (py_split TAB (py_strip commented_feature_line) ! 3) = Some 1
   \<and> py_int 4300 (py_split TAB (py_strip commented_feature_line) ! 4) = Some 10
   \<and> parse_gff_line 4300 commented_feature_line = Inr None"
  by (simp add: commented_feature_line_def parse_eval)

text \<open>
  Claim C2, amended. A line whose trimmed content does not begin with \<open>#\<close>, has at least
  8 tab-separated fields and whose fields 3 and 4 are accepted by \<open>int\<close> parses to a
  record: the fields 0, 1, 2, 5, 6, 7 in place, the integers of fields 3 and 4 as start
  and end, and field 8 as attributes, or the empty string when there are only 8 fields.
\<close>

theorem parse_gff_line_roundtrip:
  assumes "flds = py_split TAB (py_strip line)"
    and "8 \<le> length flds"
    and "\<not> py_startswith (py_strip line) ''#''"
    and "py_int m (flds ! 3) = Some s"
    and "py_int m (flds ! 4) = Some e"
  shows "parse_gff_line m line =
           Inr (Some \<lparr>seqname = flds ! 0, source = flds ! 1, feature = flds ! 2,
                       start = s, end_pos = e, score = flds ! 5, strand = flds ! 6,
                       frame = flds ! 7,
                       attributes = (if 8 < length flds then flds ! 8 else [])\<rparr>)"
proof -
  have "py_strip line \<noteq> []"
    using assms(1,2) by auto
  with assms show ?thesis
    by (simp add: parse_gff_line_def Let_def)
qed

theorem parse_gff_line_roundtrip_witness:
  "8 \<le> length (py_split TAB (py_strip valid_feature_line))
   \<and> \<not> py_startswith (py_strip valid_feature_line) ''#''
   \<and> py_int 4300 (py_split TAB (py_strip valid_feature_line) ! 3) = Some 1
   \<and> py_int 4300 (py_split TAB (py_strip valid_feature_line) ! 4) = Some 107
   \<and> parse_gff_line 4300 valid_feature_line =
         Inr (Some \<lparr>seqname = ''NC_000908.2'', source = ''RefSeq'', feature = ''gene'',
                     start = 1, end_pos = 107, score = ''.'', strand = ''+'', frame = ''.'',
                     attributes = ''ID=gene-MG_0001''\<rparr>)"
  using parse_gff_line_roundtrip [of "py_split TAB (py_strip valid_feature_line)"
      valid_feature_line 4300 1 107]
  by (simp add: valid_feature_line_def parse_eval)

text \<open>
  Claim C3, as stated, fails on a comment line that lists the column names: it has 8
  tab-separated fields and a start field that is no integer, yet it is skipped and the
  run returns a result.
\<close>

theorem parse_gff_line_bad_int_counterexample:
  "8 \<le> length (py_split TAB (py_strip header_comment_line))
   \<and> py_int 4300 (py_split TAB (py_strip header_comment_line) ! 3) = None
   \<and> parse_gff_line 4300 header_comment_line = Inr None
   \<and> process_gff 4300 [header_comment_line] None =
        Inr \<lparr>total_features = 0, by_type = [], avg_length = [], strand_distribution = []\<rparr>"
  by (simp add: header_comment_line_def process_gff_def parse_eval)

text \<open>
  Claim C3, amended. A line whose trimmed content does not begin with \<open>#\<close>, has at least
  8 tab-separated fields and whose field 3 or field 4 is refused by \<open>int\<close> makes the
  parser raise \<open>ValueError\<close>; a file that contains such a line makes \<open>process_gff\<close>
  raise it too, with or without a filter, so that no result is produced.
\<close>

theorem parse_gff_line_bad_int:
  assumes "flds = py_split TAB (py_strip line)"
    and "8 \<le> length flds"
    and "\<not> py_startswith (py_strip line) ''#''"
    and "py_int m (flds ! 3) = None \<or> py_int m (flds ! 4) = None"
  shows "parse_gff_line m line = Inl ValueError
         \<and> (line \<in> set gff_file \<longrightarrow> process_gff m gff_file filter_type = Inl ValueError)"
proof -
  have "py_strip line \<noteq> []"
    using assms(1,2) by auto
  with assms have err: "parse_gff_line m line = Inl ValueError"
    by (auto simp: parse_gff_line_def Let_def split: option.splits)
  then show ?thesis
    by (simp add: process_gff_def read_features_error)
qed

theorem parse_gff_line_bad_int_witness:
  "8 \<le> length (py_split TAB (py_strip bad_start_line))
   \<and> \<not> py_startswith (py_strip bad_start_line) ''#''
   \<and> py_int 4300 (py_split TAB (py_strip bad_start_line) ! 3) = None
   \<and> parse_gff_line 4300 bad_start_line = Inl ValueError
   \<and> process_gff 4300 [valid_feature_line, bad_start_line] (Some ''CDS'') = Inl ValueError"
  using parse_gff_line_bad_int [of "py_split TAB (py_strip bad_start_line)"
      bad_start_line 4300 "[valid_feature_line, bad_start_line]" "Some ''CDS''"]
  by (simp add: bad_start_line_def parse_eval)

section \<open>Properties of the aggregator\<close>

subsection \<open>Counting dictionaries\<close>

lemma dict_incr_sum: "sum_list (map snd (dict_incr k d)) = sum_list (map snd d) + 1"
  by (induction d) auto

lemma dict_incr_key_list:
  "map fst (dict_incr k d) = (if k \<in> fst ` set d then map fst d else map fst d @ [k])"
  by (induction d) (force simp: image_iff)+

lemma dict_incr_keys: "fst ` set (dict_incr k d) = insert k (fst ` set d)"
  using dict_incr_key_list [of k d] set_map [of fst "dict_incr k d"]
  by (auto split: if_splits)

lemma dict_incr_positive:
  "\<forall>kv \<in> set d. 1 \<le> snd kv \<Longrightarrow> \<forall>kv \<in> set (dict_incr k d). 1 \<le> snd kv"
  by (induction d) (fastforce split: if_splits)+

lemma dict_incr_lookup:
  "map_of (dict_incr k d) k' =
     (if k' = k then Some (case map_of d k of None \<Rightarrow> 1 | Some n \<Rightarrow> n + 1)
      else map_of d k')"
  by (induction d) auto

lemma count_sum:
  "sum_list (map snd (fold (\<lambda>f d. dict_incr (g f) d) fs d))
     = sum_list (map snd d) + int (length fs)"
  by (induction fs arbitrary: d) (simp_all add: dict_incr_sum)

lemma count_keys:
  "fst ` set (fold (\<lambda>f d. dict_incr (g f) d) fs d) = fst ` set d \<union> g ` set fs"
  by (induction fs arbitrary: d) (simp_all add: dict_incr_keys)

lemma count_positive:
  "\<forall>kv \<in> set d. 1 \<le> snd kv
   \<Longrightarrow> \<forall>kv \<in> set (fold (\<lambda>f d. dict_incr (g f) d) fs d). 1 \<le> snd kv"
proof (induction fs arbitrary: d)
  case Nil
  then show ?case by simp
next
  case (Cons f fs)
  from Cons.IH [OF dict_incr_positive [OF Cons.prems]] show ?case by simp
qed

lemma count_lookup:
  "map_of (fold (\<lambda>f d. dict_incr (g f) d) fs d) k =
     (if k \<in> g ` set fs
      then Some ((case map_of d k of None \<Rightarrow> 0 | Some n \<Rightarrow> n)
                 + int (length (filter (\<lambda>f. g f = k) fs)))
      else map_of d k)"
proof (induction fs arbitrary: d)
  case Nil
  show ?case by simp
next
  case (Cons f fs)
  have empty: "filter (\<lambda>f. g f = k) fs = []" if "k \<notin> g ` set fs"
    using that by (auto simp: filter_empty_conv)
  show ?case
  proof (cases "g f = k")
    case True
    then show ?thesis
      using empty
      by (cases "k \<in> g ` set fs") (simp_all add: Cons.IH dict_incr_lookup split: option.splits)
  next
    case False
    then show ?thesis
      by (cases "k \<in> g ` set fs") (simp_all add: Cons.IH dict_incr_lookup)
  qed
qed

lemma count_single_key:
  assumes "\<forall>f \<in> set fs. g f = k"
  shows "fold (\<lambda>f d. dict_incr (g f) d) fs [(k, c)] = [(k, c + int (length fs))]"
  using assms by (induction fs arbitrary: c) simp_all

lemma count_one_type:
  assumes "\<forall>f \<in> set fs. g f = k"
  shows "fold (\<lambda>f d. dict_incr (g f) d) fs [] = (if fs = [] then [] else [(k, int (length fs))])"
proof (cases fs)
  case Nil
  then show ?thesis by simp
next
  case (Cons f fs')
  with assms have "g f = k" and "\<forall>f \<in> set fs'. g f = k" by auto
  then show ?thesis
    using Cons count_single_key [of fs' g k 1] by simp
qed

subsection \<open>Grouping dictionaries\<close>

lemma dict_append_key_list:
  "map fst (dict_append k v d) = (if k \<in> fst ` set d then map fst d else map fst d @ [k])"
  by (induction d) (force simp: image_iff)+

lemma dict_append_keys: "fst ` set (dict_append k v d) = insert k (fst ` set d)"
  using dict_append_key_list [of k v d] set_map [of fst "dict_append k v d"]
  by (auto split: if_splits)

lemma dict_append_distinct:
  "distinct (map fst d) \<Longrightarrow> distinct (map fst (dict_append k v d))"
  by (simp add: dict_append_key_list)

lemma dict_append_lookup:
  "map_of (dict_append k v d) k' =
     (if k' = k then Some ((case map_of d k of None \<Rightarrow> [] | Some vs \<Rightarrow> vs) @ [v])
      else map_of d k')"
  by (induction d) auto

lemma group_keys:
  "fst ` set (fold (\<lambda>f d. dict_append (g f) (h f) d) fs d) = fst ` set d \<union> g ` set fs"
  by (induction fs arbitrary: d) (simp_all add: dict_append_keys)

lemma group_distinct:
  "distinct (map fst d)
   \<Longrightarrow> distinct (map fst (fold (\<lambda>f d. dict_append (g f) (h f) d) fs d))"
  by (induction fs arbitrary: d) (simp_all add: dict_append_distinct)

lemma group_lookup:
  "map_of (fold (\<lambda>f d. dict_append (g f) (h f) d) fs d) k =
     (if k \<in> g ` set fs
      then Some ((case map_of d k of None \<Rightarrow> [] | Some vs \<Rightarrow> vs)
                 @ map h (filter (\<lambda>f. g f = k) fs))
      else map_of d k)"
proof (induction fs arbitrary: d)
  case Nil
  show ?case by simp
next
  case (Cons f fs)
  have empty: "filter (\<lambda>f. g f = k) fs = []" if "k \<notin> g ` set fs"
    using that by (auto simp: filter_empty_conv)
  show ?case
  proof (cases "g f = k")
    case True
    then show ?thesis
      using empty
      by (cases "k \<in> g ` set fs") (simp_all add: Cons.IH dict_append_lookup split: option.splits)
  next
    case False
    then show ?thesis
      by (cases "k \<in> g ` set fs") (simp_all add: Cons.IH dict_append_lookup)
  qed
qed

subsection \<open>The loop of the averages\<close>

lemma dict_set_key_list:
  "map fst (dict_set k v d) = (if k \<in> fst ` set d then map fst d else map fst d @ [k])"
  by (induction d) (force simp: image_iff)+

lemma dict_set_keys: "fst ` set (dict_set k v d) = insert k (fst ` set d)"
  using dict_set_key_list [of k v d] set_map [of fst "dict_set k v d"]
  by (auto split: if_splits)

lemma dict_set_lookup: "map_of (dict_set k v d) k' = (if k' = k then Some v else map_of d k')"
  by (induction d) auto

lemma average_lengths_keys:
  "average_lengths groups avg = Inr res \<Longrightarrow> fst ` set res = fst ` set avg \<union> fst ` set groups"
proof (induction groups arbitrary: avg)
  case Nil
  then show ?case by simp
next
  case (Cons p groups)
  obtain t ls where p: "p = (t, ls)" by (cases p)
  from Cons.prems obtain r where r: "rounded_mean ls = Inr r"
    and rest: "average_lengths groups (dict_set t r avg) = Inr res"
    by (auto simp: p split: sum.splits)
  from Cons.IH [OF rest] show ?case
    by (auto simp: p dict_set_keys)
qed

lemma average_lengths_lookup:
  assumes "distinct (map fst groups)" and "average_lengths groups avg = Inr res"
  shows "map_of res t =
           (case map_of groups t of
              None \<Rightarrow> map_of avg t
            | Some ls \<Rightarrow> (case rounded_mean ls of Inl e \<Rightarrow> None | Inr r \<Rightarrow> Some r))"
  using assms
proof (induction groups arbitrary: avg)
  case Nil
  then show ?case by simp
next
  case (Cons p groups)
  obtain t0 ls0 where p: "p = (t0, ls0)" by (cases p)
  from Cons.prems(2) obtain r where r: "rounded_mean ls0 = Inr r"
    and rest: "average_lengths groups (dict_set t0 r avg) = Inr res"
    by (auto simp: p split: sum.splits)
  from Cons.prems(1) have d: "distinct (map fst groups)" and fresh: "t0 \<notin> fst ` set groups"
    by (auto simp: p)
  from fresh have none: "map_of groups t0 = None"
    by (simp add: map_of_eq_None_iff)
  show ?case
    using Cons.IH [OF d rest] none r by (auto simp: p dict_set_lookup split: option.splits)
qed

lemma average_lengths_succeeds:
  "\<forall>p \<in> set groups. \<exists>r. rounded_mean (snd p) = Inr r
   \<Longrightarrow> \<exists>res. average_lengths groups avg = Inr res"
proof (induction groups arbitrary: avg)
  case Nil
  show ?case by simp
next
  case (Cons p groups)
  obtain t ls where p: "p = (t, ls)" by (cases p)
  from Cons.prems obtain r where r: "rounded_mean ls = Inr r" by (auto simp: p)
  from Cons.prems have "\<forall>p \<in> set groups. \<exists>r. rounded_mean (snd p) = Inr r" by simp
  from Cons.IH [OF this, of "dict_set t r avg"] show ?case
    by (simp add: p r)
qed

lemma average_lengths_each:
  "average_lengths groups avg = Inr res
   \<Longrightarrow> \<forall>p \<in> set groups. \<exists>r. rounded_mean (snd p) = Inr r"
proof (induction groups arbitrary: avg)
  case Nil
  show ?case by simp
next
  case (Cons p groups)
  obtain t ls where p: "p = (t, ls)" by (cases p)
  from Cons.prems obtain r where r: "rounded_mean ls = Inr r"
    and rest: "average_lengths groups (dict_set t r avg) = Inr res"
    by (auto simp: p split: sum.splits)
  from Cons.IH [OF rest] r show ?case by (simp add: p)
qed

subsection \<open>The reading loop and the filter\<close>

lemma read_features_filter:
  "read_features m lines None acc = Inr fs
   \<Longrightarrow> read_features m lines (Some T) (filter (\<lambda>f. feature f = T) acc)
         = Inr (filter (\<lambda>f. feature f = T) fs)"
proof (induction lines arbitrary: acc)
  case Nil
  then show ?case by simp
next
  case (Cons l lines)
  show ?case
  proof (cases "parse_gff_line m l")
    case (Inl e)
    with Cons.prems show ?thesis by simp
  next
    case (Inr r)
    show ?thesis
    proof (cases r)
      case None
      with Inr Cons show ?thesis by simp
    next
      case (Some parsed)
      with Inr Cons.prems have "read_features m lines None (acc @ [parsed]) = Inr fs"
        by simp
      from Cons.IH [OF this] Inr Some show ?thesis by (simp split: if_splits)
    qed
  qed
qed

lemma dict_incr_distinct: "distinct (map fst d) \<Longrightarrow> distinct (map fst (dict_incr k d))"
  by (simp add: dict_incr_key_list)

lemma count_distinct:
  "distinct (map fst d) \<Longrightarrow> distinct (map fst (fold (\<lambda>f d. dict_incr (g f) d) fs d))"
  by (induction fs arbitrary: d) (simp_all add: dict_incr_distinct)

lemma dict_set_distinct: "distinct (map fst d) \<Longrightarrow> distinct (map fst (dict_set k v d))"
  by (simp add: dict_set_key_list)

lemma average_lengths_distinct:
  "average_lengths groups avg = Inr res \<Longrightarrow> distinct (map fst avg) \<Longrightarrow> distinct (map fst res)"
proof (induction groups arbitrary: avg)
  case Nil
  then show ?case by simp
next
  case (Cons p groups)
  obtain t ls where p: "p = (t, ls)" by (cases p)
  from Cons.prems(1) obtain r where
    rest: "average_lengths groups (dict_set t r avg) = Inr res"
    by (auto simp: p split: sum.splits)
  from Cons.IH [OF rest dict_set_distinct [OF Cons.prems(2)]] show ?case .
qed

subsection \<open>The result of a run\<close>

lemma process_gff_result:
  assumes "process_gff m lines flt = Inr r"
  obtains fs avg where "read_features m lines flt [] = Inr fs"
    and "average_lengths
           (fold (\<lambda>f d. dict_append (feature f) (calculate_length f) d) fs []) [] = Inr avg"
    and "r = \<lparr>total_features = int (length fs),
               by_type = fold (\<lambda>f d. dict_incr (feature f) d) fs [],
               avg_length = avg,
               strand_distribution = fold (\<lambda>f d. dict_incr (strand f) d) fs []\<rparr>"
  using assms by (auto simp: process_gff_def Let_def split: sum.splits)

lemma process_gff_from_parts:
  assumes "read_features m lines flt [] = Inr fs"
    and "average_lengths
           (fold (\<lambda>f d. dict_append (feature f) (calculate_length f) d) fs []) [] = Inr avg"
  shows "process_gff m lines flt =
           Inr \<lparr>total_features = int (length fs),
                by_type = fold (\<lambda>f d. dict_incr (feature f) d) fs [],
                avg_length = avg,
                strand_distribution = fold (\<lambda>f d. dict_incr (strand f) d) fs []\<rparr>"
  using assms by (simp add: process_gff_def)

text \<open>The groups of the filtered records: the averages of a filtered run exist when
  those of the unfiltered run do, and agree with them on the filter type.\<close>

lemma filtered_averages:
  fixes fs :: "gff_feature list"
  defines "groups xs \<equiv> fold (\<lambda>f d. dict_append (feature f) (calculate_length f) d) xs []"
  assumes ok: "average_lengths (groups fs) [] = Inr avg_u"
  shows "\<exists>avg_f. average_lengths (groups (filter (\<lambda>f. feature f = T) fs)) [] = Inr avg_f
                 \<and> map_of avg_f T = map_of avg_u T"
proof -
  let ?P = "\<lambda>f. feature f = T"
  let ?fs' = "filter ?P fs"
  have dist: "distinct (map fst (groups xs))" for xs
    unfolding groups_def by (rule group_distinct) simp
  have look: "map_of (groups xs) k =
       (if k \<in> feature ` set xs then Some (map calculate_length (filter (\<lambda>f. feature f = k) xs))
        else None)" for xs k
    unfolding groups_def by (simp add: group_lookup)
  have same: "map_of (groups ?fs') T = map_of (groups fs) T"
    by (auto simp: look)
  have each: "\<exists>r. rounded_mean (snd p) = Inr r" if p: "p \<in> set (groups ?fs')" for p
  proof -
    have "fst p \<in> fst ` set (groups ?fs')" using p by (rule imageI)
    then have "fst p \<in> feature ` set ?fs'"
      unfolding groups_def by (simp add: group_keys)
    then have key: "fst p = T" by auto
    have "map_of (groups ?fs') (fst p) = Some (snd p)"
      using p dist [of ?fs'] by (simp add: map_of_eq_Some_iff)
    with key same have "map_of (groups fs) T = Some (snd p)" by simp
    then have "(T, snd p) \<in> set (groups fs)" by (rule map_of_SomeD)
    with average_lengths_each [OF ok] show ?thesis by force
  qed
  then obtain avg_f where f: "average_lengths (groups ?fs') [] = Inr avg_f"
    using average_lengths_succeeds [of "groups ?fs'" "[]"] by blast
  have "map_of avg_f T = map_of avg_u T"
    using average_lengths_lookup [OF dist f, of T] average_lengths_lookup [OF dist ok, of T] same
    by simp
  with f show ?thesis by blast
qed

subsection \<open>A run on three features\<close>

lemma floor_numeral_quotient:
  "\<lfloor>numeral a / numeral b :: rat\<rfloor> = numeral a div numeral b"
  "\<lfloor>- (numeral a / numeral b) :: rat\<rfloor> = - numeral a div numeral b"
  using floor_divide_of_int_eq [of "numeral a" "numeral b", where ?'a = rat]
    floor_divide_of_int_eq [of "- numeral a" "numeral b", where ?'a = rat]
  by simp_all

lemmas float_eval = rounded_mean_def py_truediv_def py_round1_def nearest_double_def
  ilog2_def pow2_def round_half_even_def compute_bitlen floor_numeral_quotient Let_def

lemma multi_strand_read:
  "read_features m multi_strand_file None [] = Inr multi_strand_features"
  by (simp add: multi_strand_file_def multi_strand_features_def parse_eval)

lemma multi_strand_means:
  "rounded_mean [101, 101] = Inr 101" "rounded_mean [51] = Inr 51"
  by (simp_all add: float_eval)

lemma multi_strand_run: "process_gff m multi_strand_file None = Inr multi_strand_stats"
  by (simp add: process_gff_def multi_strand_read multi_strand_features_def
      multi_strand_stats_def calculate_length_def multi_strand_means)

subsection \<open>Totals, keys and the filter\<close>

text \<open>
  Claim C1. In every result of \<open>process_gff\<close>, with or without a filter, the total
  number of features is the sum of the values of \<open>by_type\<close> and the sum of the values
  of \<open>strand_distribution\<close>.
\<close>

theorem totals_agree:
  assumes "process_gff m lines flt = Inr r"
  shows "total_features r = sum_list (map snd (by_type r))
         \<and> total_features r = sum_list (map snd (strand_distribution r))"
  using assms by (elim process_gff_result) (simp add: count_sum)

theorem totals_agree_witness:
  "process_gff 4300 multi_strand_file None = Inr multi_strand_stats
   \<and> total_features multi_strand_stats = sum_list (map snd (by_type multi_strand_stats))
   \<and> total_features multi_strand_stats
       = sum_list (map snd (strand_distribution multi_strand_stats))"
  using totals_agree [OF multi_strand_run [of 4300]] multi_strand_run [of 4300] by simp

text \<open>
  Claim C9. The keys of \<open>by_type\<close> are exactly the feature types of the retained
  records, each key once and each count at least 1, and \<open>avg_length\<close> has the same
  keys.
\<close>

theorem type_keys:
  assumes "read_features m lines flt [] = Inr fs"
    and "process_gff m lines flt = Inr r"
  shows "fst ` set (by_type r) = feature ` set fs
         \<and> distinct (map fst (by_type r))
         \<and> (\<forall>kv \<in> set (by_type r). 1 \<le> snd kv)
         \<and> fst ` set (avg_length r) = fst ` set (by_type r)
         \<and> distinct (map fst (avg_length r))"
proof -
  from assms(2) obtain fs' avg where
    fs': "read_features m lines flt [] = Inr fs'"
    and avg: "average_lengths
           (fold (\<lambda>f d. dict_append (feature f) (calculate_length f) d) fs' []) [] = Inr avg"
    and r: "r = \<lparr>total_features = int (length fs'),
               by_type = fold (\<lambda>f d. dict_incr (feature f) d) fs' [],
               avg_length = avg,
               strand_distribution = fold (\<lambda>f d. dict_incr (strand f) d) fs' []\<rparr>"
    by (rule process_gff_result)
  from fs' assms(1) have eq: "fs' = fs" by simp
  have pos: "\<forall>kv \<in> set (fold (\<lambda>f d. dict_incr (feature f) d) fs []). 1 \<le> snd kv"
    by (rule count_positive) simp
  have dist: "distinct (map fst (fold (\<lambda>f d. dict_incr (feature f) d) fs []))"
    by (rule count_distinct) simp
  have keys: "fst ` set avg = feature ` set fs"
    using average_lengths_keys [OF avg] by (simp add: group_keys eq)
  have adist: "distinct (map fst avg)"
    using average_lengths_distinct [OF avg] by simp
  show ?thesis
    using pos dist keys adist by (simp add: r eq count_keys)
qed

theorem type_keys_witness:
  "read_features 4300 multi_strand_file None [] = Inr multi_strand_features
   \<and> process_gff 4300 multi_strand_file None = Inr multi_strand_stats
   \<and> fst ` set (by_type multi_strand_stats) = feature ` set multi_strand_features
   \<and> distinct (map fst (by_type multi_strand_stats))
   \<and> list_all (\<lambda>kv. 1 \<le> snd kv) (by_type multi_strand_stats)
   \<and> fst ` set (avg_length multi_strand_stats) = fst ` set (by_type multi_strand_stats)
   \<and> distinct (map fst (avg_length multi_strand_stats))"
  using type_keys [OF multi_strand_read [of 4300] multi_strand_run [of 4300]]
    multi_strand_read [of 4300] multi_strand_run [of 4300]
  by (simp add: list_all_iff)

text \<open>
  Claim C5. When the unfiltered run returns, the run filtered on \<open>T\<close> returns too; with
  \<open>n\<close> the count of \<open>T\<close> in the unfiltered \<open>by_type\<close> (0 when \<open>T\<close> is no key), the
  filtered \<open>by_type\<close> is \<open>{T: n}\<close>, or empty when \<open>n = 0\<close>, and the filtered total is \<open>n\<close>.
\<close>

theorem filter_counts:
  assumes "process_gff m lines None = Inr ru"
  shows "\<exists>rf. process_gff m lines (Some T) = Inr rf
           \<and> (let n = (case map_of (by_type ru) T of None \<Rightarrow> 0 | Some c \<Rightarrow> c)
              in by_type rf = (if n = 0 then [] else [(T, n)]) \<and> total_features rf = n)"
proof -
  let ?P = "\<lambda>f. feature f = T"
  from assms obtain fs avg where
    fs: "read_features m lines None [] = Inr fs"
    and avg: "average_lengths
           (fold (\<lambda>f d. dict_append (feature f) (calculate_length f) d) fs []) [] = Inr avg"
    and ru: "ru = \<lparr>total_features = int (length fs),
               by_type = fold (\<lambda>f d. dict_incr (feature f) d) fs [],
               avg_length = avg,
               strand_distribution = fold (\<lambda>f d. dict_incr (strand f) d) fs []\<rparr>"
    by (rule process_gff_result)
  from read_features_filter [OF fs, of T]
  have fs': "read_features m lines (Some T) [] = Inr (filter ?P fs)" by simp
  from filtered_averages [OF avg, of T] obtain avg_f where
    "average_lengths
       (fold (\<lambda>f d. dict_append (feature f) (calculate_length f) d) (filter ?P fs) []) []
       = Inr avg_f"
    by blast
  note run = process_gff_from_parts [OF fs' this]
  have one: "fold (\<lambda>f d. dict_incr (feature f) d) (filter ?P fs) []
      = (if filter ?P fs = [] then [] else [(T, int (length (filter ?P fs)))])"
    by (rule count_one_type) simp
  have n: "(case map_of (by_type ru) T of None \<Rightarrow> 0 | Some c \<Rightarrow> c) = int (length (filter ?P fs))"
    by (auto simp: ru count_lookup filter_empty_conv)
  show ?thesis
    unfolding Let_def n using run one by simp
qed

theorem filter_counts_witness:
  "process_gff 4300 multi_strand_file None = Inr multi_strand_stats
   \<and> (\<exists>rf. process_gff 4300 multi_strand_file (Some ''gene'') = Inr rf
            \<and> by_type rf = [(''gene'', 2)] \<and> total_features rf = 2)"
  using filter_counts [OF multi_strand_run [of 4300], of "''gene''"] multi_strand_run [of 4300]
  by (simp add: multi_strand_stats_def)

text \<open>
  Claim C7. For a type \<open>T\<close> present in the unfiltered result, the run filtered on \<open>T\<close>
  returns and its \<open>avg_length[T]\<close> equals the unfiltered \<open>avg_length[T]\<close>.
\<close>

theorem filter_average:
  assumes "process_gff m lines None = Inr ru"
    and "T \<in> fst ` set (by_type ru)"
  shows "\<exists>rf a. process_gff m lines (Some T) = Inr rf
           \<and> map_of (avg_length rf) T = Some a \<and> map_of (avg_length ru) T = Some a"
proof -
  let ?P = "\<lambda>f. feature f = T"
  from assms(1) obtain fs avg where
    fs: "read_features m lines None [] = Inr fs"
    and avg: "average_lengths
           (fold (\<lambda>f d. dict_append (feature f) (calculate_length f) d) fs []) [] = Inr avg"
    and ru: "ru = \<lparr>total_features = int (length fs),
               by_type = fold (\<lambda>f d. dict_incr (feature f) d) fs [],
               avg_length = avg,
               strand_distribution = fold (\<lambda>f d. dict_incr (strand f) d) fs []\<rparr>"
    by (rule process_gff_result)
  from read_features_filter [OF fs, of T]
  have fs': "read_features m lines (Some T) [] = Inr (filter ?P fs)" by simp
  from filtered_averages [OF avg, of T] obtain avg_f where
    f: "average_lengths
       (fold (\<lambda>f d. dict_append (feature f) (calculate_length f) d) (filter ?P fs) []) []
       = Inr avg_f"
    and same: "map_of avg_f T = map_of avg T"
    by blast
  note run = process_gff_from_parts [OF fs' f]
  from assms(2) have "T \<in> fst ` set avg"
    using average_lengths_keys [OF avg] by (simp add: ru count_keys group_keys)
  then obtain a where "map_of avg T = Some a"
    by (metis domD dom_map_of_conv_image_fst)
  with same run show ?thesis by (simp add: ru)
qed

theorem filter_average_witness:
  "process_gff 4300 multi_strand_file None = Inr multi_strand_stats
   \<and> ''CDS'' \<in> fst ` set (by_type multi_strand_stats)
   \<and> (\<exists>rf. process_gff 4300 multi_strand_file (Some ''CDS'') = Inr rf
            \<and> map_of (avg_length rf) ''CDS'' = Some 51
            \<and> map_of (avg_length multi_strand_stats) ''CDS'' = Some 51)"
proof -
  have present: "''CDS'' \<in> fst ` set (by_type multi_strand_stats)"
    by (simp add: multi_strand_stats_def)
  show ?thesis
    using filter_average [OF multi_strand_run [of 4300] present] multi_strand_run [of 4300] present
    by (simp add: multi_strand_stats_def)
qed

subsection \<open>Bounds on the rounding to a double\<close>








subsection \<open>Runs on the example files\<close>

lemma spec_avg_probe: "spec_avg_length [1, 1, 1, 1, 1, 1, 1, 1, 1, 1, 1, 1, 1, 1, 1, 1, 1, 2, 2, 2] = 12 / 10"
  by (simp add: spec_avg_length_def round_half_even_def floor_numeral_quotient Let_def)

lemma precision_read: "read_features m precision_file None [] = Inr precision_features"
  by (simp add: precision_file_def precision_features_def parse_eval)

lemma precision_mean: "rounded_mean [10, 10, 5] = Inr (2336242306698445 / 281474976710656)"
  by (simp add: float_eval)

lemma precision_run: "process_gff m precision_file None = Inr precision_stats"
  by (simp add: process_gff_def precision_read precision_features_def precision_stats_def
      calculate_length_def precision_mean)

lemma one_base_parse: "parse_gff_line m one_base_line = Inr (Some one_base_feature)"
  by (simp add: one_base_line_def one_base_feature_def parse_eval)

lemma two_base_parse: "parse_gff_line m two_base_line = Inr (Some two_base_feature)"
  by (simp add: two_base_line_def two_base_feature_def parse_eval)

lemma tie_read: "read_features m tie_file None [] = Inr tie_features"
  by (simp add: tie_file_def tie_features_def one_base_parse two_base_parse)

lemma tie_lengths: "map calculate_length tie_features = [1, 1, 1, 1, 1, 1, 1, 1, 1, 1, 1, 1, 1, 1, 1, 1, 1, 2, 2, 2]"
  by (simp add: tie_features_def one_base_feature_def two_base_feature_def calculate_length_def)

lemma tie_mean: "rounded_mean [1, 1, 1, 1, 1, 1, 1, 1, 1, 1, 1, 1, 1, 1, 1, 1, 1, 2, 2, 2] = Inr (2476979795053773 / 2251799813685248)"
  by (simp add: float_eval)

lemma tie_run: "process_gff m tie_file None = Inr tie_stats"
  by (simp add: process_gff_def tie_read tie_features_def one_base_feature_def
      two_base_feature_def calculate_length_def tie_mean tie_stats_def)

subsection \<open>The exceptions of a run\<close>

lemma rounded_mean_error:
  assumes "rounded_mean ls = Inl e" and "ls \<noteq> []"
  shows "e = OverflowError"
  using assms
  by (auto simp: rounded_mean_def py_truediv_def py_round1_def split: if_splits option.splits)

lemma rounded_mean_parts:
  assumes "rounded_mean ls = Inr a"
  shows "\<exists>q. py_truediv (sum_list ls) (int (length ls)) = Inr q \<and> py_round1 q = Inr a"
  using assms by (auto simp: rounded_mean_def split: sum.splits)

lemma dict_append_nonempty:
  "\<forall>p \<in> set d. snd p \<noteq> [] \<Longrightarrow> \<forall>p \<in> set (dict_append k v d). snd p \<noteq> []"
  by (induction d) (fastforce split: if_splits)+

lemma group_nonempty:
  "\<forall>p \<in> set d. snd p \<noteq> []
   \<Longrightarrow> \<forall>p \<in> set (fold (\<lambda>f d. dict_append (g f) (h f) d) fs d). snd p \<noteq> []"
proof (induction fs arbitrary: d)
  case Nil
  then show ?case by simp
next
  case (Cons f fs)
  from Cons.IH [OF dict_append_nonempty [OF Cons.prems]] show ?case by simp
qed

lemma average_lengths_error:
  "average_lengths groups avg = Inl e \<Longrightarrow> \<forall>p \<in> set groups. snd p \<noteq> []
   \<Longrightarrow> e = OverflowError"
proof (induction groups arbitrary: avg)
  case Nil
  then show ?case by simp
next
  case (Cons p groups)
  obtain t ls where p: "p = (t, ls)" by (cases p)
  from Cons.prems(2) have ls: "ls \<noteq> []" and rest: "\<forall>p \<in> set groups. snd p \<noteq> []"
    by (simp_all add: p)
  show ?case
  proof (cases "rounded_mean ls")
    case (Inl e')
    with Cons.prems(1) have "e' = e" by (simp add: p)
    with rounded_mean_error [OF Inl ls] show ?thesis by simp
  next
    case (Inr r)
    with Cons.prems(1) have "average_lengths groups (dict_set t r avg) = Inl e"
      by (simp add: p)
    from Cons.IH [OF this rest] show ?thesis .
  qed
qed

lemma read_features_error_kind:
  "read_features m lines flt acc = Inl e \<Longrightarrow> e = ValueError"
proof (induction lines arbitrary: acc)
  case Nil
  then show ?case by simp
next
  case (Cons l lines)
  show ?case
  proof (cases "parse_gff_line m l")
    case (Inl e')
    with Cons.prems parse_gff_line_error [OF Inl] show ?thesis by simp
  next
    case (Inr r)
    with Cons show ?thesis by (auto split: option.splits if_splits)
  qed
qed

lemma process_gff_error:
  assumes "process_gff m lines flt = Inl e"
  shows "e = ValueError \<or> e = OverflowError"
proof (cases "read_features m lines flt []")
  case (Inl e')
  with assms have "e' = e" by (simp add: process_gff_def)
  with read_features_error_kind [OF Inl] show ?thesis by simp
next
  case (Inr fs)
  let ?groups = "fold (\<lambda>f d. dict_append (feature f) (calculate_length f) d) fs []"
  from assms Inr have "average_lengths ?groups [] = Inl e"
    by (simp add: process_gff_def split: sum.splits)
  moreover have "\<forall>p \<in> set ?groups. snd p \<noteq> []"
    by (rule group_nonempty) simp
  ultimately show ?thesis
    using average_lengths_error by blast
qed

text \<open>The entry of a type in \<open>avg_length\<close> is the rounded mean of the lengths of its records.\<close>

lemma average_of_group:
  assumes avg: "average_lengths
           (fold (\<lambda>f d. dict_append (feature f) (calculate_length f) d) fs []) [] = Inr avg"
    and T: "T \<in> feature ` set fs"
  shows "\<exists>a. rounded_mean (map calculate_length (filter (\<lambda>f. feature f = T) fs)) = Inr a
             \<and> map_of avg T = Some a"
proof -
  let ?groups = "fold (\<lambda>f d. dict_append (feature f) (calculate_length f) d) fs []"
  let ?ls = "map calculate_length (filter (\<lambda>f. feature f = T) fs)"
  have dist: "distinct (map fst ?groups)"
    by (rule group_distinct) simp
  have look: "map_of ?groups T = Some ?ls"
    using T by (simp add: group_lookup)
  then have "(T, ?ls) \<in> set ?groups" by (rule map_of_SomeD)
  with average_lengths_each [OF avg] obtain a where a: "rounded_mean ?ls = Inr a"
    by force
  from average_lengths_lookup [OF dist avg, of T] look a have "map_of avg T = Some a"
    by simp
  with a show ?thesis by blast
qed

text \<open>
  Claim C6, as stated, fails on twenty genes of total length 23. Their mean is 1.15, which
  round-half-to-even takes to 1.2; the double nearest to 1.15 lies below it, and
  \<open>round\<close> takes that double to 1.1. The result holds the float 1.1, which is neither
  the float 1.2 nor the number 1.2.
\<close>

theorem rounded_average_counterexample:
  "read_features 4300 tie_file None [] = Inr tie_features
   \<and> process_gff 4300 tie_file None = Inr tie_stats
   \<and> spec_avg_length (map calculate_length (filter (\<lambda>f. feature f = ''gene'') tie_features))
       = 12 / 10
   \<and> map_of (avg_length tie_stats) ''gene'' = nearest_double 11 10
   \<and> map_of (avg_length tie_stats) ''gene'' \<noteq> nearest_double 12 10
   \<and> map_of (avg_length tie_stats) ''gene'' \<noteq> Some (12 / 10)"
proof -
  have "nearest_double 12 10 = Some (5404319552844595 / 4503599627370496)"
    and "nearest_double 11 10 = Some (2476979795053773 / 2251799813685248)"
    by (simp_all add: float_eval)
  moreover have "filter (\<lambda>f. feature f = ''gene'') tie_features = tie_features"
    by (simp add: tie_features_def one_base_feature_def two_base_feature_def)
  ultimately show ?thesis
    by (simp add: tie_read tie_lengths spec_avg_probe tie_run) (simp add: tie_stats_def)
qed

text \<open>
  Claim C6, amended. \<open>process_gff\<close> never raises \<open>ZeroDivisionError\<close>. In a result, for a
  type \<open>T\<close> with a retained record, the lengths of \<open>T\<close>'s records are not empty and
  \<open>avg_length[T]\<close> is \<open>round(q, 1)\<close>, where \<open>q\<close> is the double nearest to the mean of
  these lengths: the rounding to one decimal, ties to even, starts from the double \<open>q\<close>
  and not from the exact mean, and yields the double nearest to the decimal.
\<close>

theorem average_of_type:
  "process_gff m lines flt \<noteq> Inl ZeroDivisionError
   \<and> (read_features m lines flt [] = Inr fs \<and> process_gff m lines flt = Inr r
        \<and> T \<in> feature ` set fs \<longrightarrow>
      (let ls = map calculate_length (filter (\<lambda>f. feature f = T) fs)
       in ls \<noteq> []
          \<and> (\<exists>q a. py_truediv (sum_list ls) (int (length ls)) = Inr q
                   \<and> py_round1 q = Inr a \<and> map_of (avg_length r) T = Some a)))"
proof (intro conjI impI)
  show "process_gff m lines flt \<noteq> Inl ZeroDivisionError"
    using process_gff_error [of m lines flt ZeroDivisionError] by auto
next
  assume asm: "read_features m lines flt [] = Inr fs \<and> process_gff m lines flt = Inr r
               \<and> T \<in> feature ` set fs"
  let ?ls = "map calculate_length (filter (\<lambda>f. feature f = T) fs)"
  from asm obtain fs' avg where
    fs': "read_features m lines flt [] = Inr fs'"
    and avg: "average_lengths
           (fold (\<lambda>f d. dict_append (feature f) (calculate_length f) d) fs' []) [] = Inr avg"
    and r: "avg_length r = avg"
    by (auto elim!: process_gff_result)
  from fs' asm have eq: "fs' = fs" by simp
  from asm have T: "T \<in> feature ` set fs" by simp
  from average_of_group [OF avg [unfolded eq] T] obtain a where
    a: "rounded_mean ?ls = Inr a" and look: "map_of avg T = Some a"
    by blast
  from rounded_mean_parts [OF a] obtain q where
    "py_truediv (sum_list ?ls) (int (length ?ls)) = Inr q" and "py_round1 q = Inr a"
    by blast
  moreover from T have "?ls \<noteq> []"
    by (auto simp: filter_empty_conv)
  ultimately show "let ls = ?ls
       in ls \<noteq> []
          \<and> (\<exists>q a. py_truediv (sum_list ls) (int (length ls)) = Inr q
                   \<and> py_round1 q = Inr a \<and> map_of (avg_length r) T = Some a)"
    using look r by (simp add: Let_def)
qed

theorem average_of_type_witness:
  "read_features 4300 precision_file None [] = Inr precision_features
   \<and> process_gff 4300 precision_file None = Inr precision_stats
   \<and> ''gene'' \<in> feature ` set precision_features
   \<and> map calculate_length (filter (\<lambda>f. feature f = ''gene'') precision_features) = [10, 10, 5]
   \<and> (\<exists>q a. py_truediv 25 3 = Inr q \<and> py_round1 q = Inr a
             \<and> map_of (avg_length precision_stats) ''gene'' = Some a)
   \<and> map_of (avg_length precision_stats) ''gene'' = nearest_double 83 10"
proof -
  have present: "''gene'' \<in> feature ` set precision_features"
    by (simp add: precision_features_def)
  have lens: "map calculate_length (filter (\<lambda>f. feature f = ''gene'') precision_features)
                = [10, 10, 5]"
    by (simp add: precision_features_def calculate_length_def)
  have literal: "nearest_double 83 10 = Some (2336242306698445 / 281474976710656)"
    by (simp add: float_eval)
  show ?thesis
    using average_of_type [of 4300 precision_file None precision_features precision_stats "''gene''"]
      precision_read [of 4300] precision_run [of 4300] present lens literal
    by (simp add: precision_stats_def)
qed

subsection \<open>The exact range of the rounding to a double\<close>


lemma pow2_numeral: "pow2 (numeral n) = 2 ^ numeral n"
  by (simp add: pow2_def)













subsection \<open>Lengths of any sign\<close>






end
